theory Spec2Isabelle
  imports Main "HOL-Library.Word"
begin

section \<open>Python values used by the module\<close>

text \<open>
  The module \<open>_pytime_windows.py\<close> works on Python integers (unbounded, modelled as
  \<open>int\<close>; \<open>//\<close> and \<open>%\<close> round to minus infinity like \<open>div\<close> and \<open>mod\<close>), on lists and
  tuples of integers and on strings. Exceptions are values of the type \<open>error\<close> (the
  class of the exception, without its message); a function that can raise returns
  \<open>error + 'a\<close> with \<open>Inl\<close> for the exception.
\<close>

datatype error = ValueError | IndexError | AttributeError | ZeroDivisionError | OSError

text \<open>Sequencing of two computations where the first may raise.\<close>

definition and_then :: "error + 'a \<Rightarrow> ('a \<Rightarrow> error + 'b) \<Rightarrow> error + 'b" where
  "and_then r f = (case r of Inl e \<Rightarrow> Inl e | Inr v \<Rightarrow> f v)"

text \<open>\<open>xs[i]\<close>: a negative index counts from the end, an index out of range raises.\<close>

definition py_index :: "'a list \<Rightarrow> int \<Rightarrow> error + 'a" where
  "py_index xs i =
     (if 0 \<le> i \<and> i < int (length xs) then Inr (xs ! nat i)
      else if i < 0 \<and> - int (length xs) \<le> i then Inr (xs ! nat (int (length xs) + i))
      else Inl IndexError)"

text \<open>\<open>xs[:k]\<close>: a negative bound counts from the end, the bound is clipped, nothing raises.\<close>

definition py_prefix :: "'a list \<Rightarrow> int \<Rightarrow> 'a list" where
  "py_prefix xs k = (if k < 0 then take (nat (int (length xs) + k)) xs else take (nat k) xs)"

section \<open>The broken-down time \<open>struct_time\<close>\<close>

text \<open>
  \<open>class struct_time(tuple)\<close>: an instance is a tuple (its inherited payload, \<open>items\<close>)
  that also carries nine named attributes in its instance dictionary.
\<close>

record struct_time =
  items :: "int list"
  tm_year :: int
  tm_mon :: int
  tm_mday :: int
  tm_hour :: int
  tm_min :: int
  tm_sec :: int
  tm_wday :: int
  tm_yday :: int
  tm_isdst :: int

text \<open>
  \<open>struct_time.__new__(cls, *args)\<close>: \<open>super().__new__(cls)\<close> is called with no
  iterable, which makes the tuple payload empty; the nine attributes are then unpacked
  from \<open>args[0]\<close>, and unpacking a sequence of any other length raises \<open>ValueError\<close>.
\<close>

definition struct_time_new :: "int list \<Rightarrow> error + struct_time" where
  "struct_time_new a =
     (case a of
        [y, mo, d, h, mi, s, wd, yd, dst] \<Rightarrow>
          Inr \<lparr>items = [], tm_year = y, tm_mon = mo, tm_mday = d, tm_hour = h, tm_min = mi,
               tm_sec = s, tm_wday = wd, tm_yday = yd, tm_isdst = dst\<rparr>
      | _ \<Rightarrow> Inl ValueError)"

text \<open>
  \<open>len\<close>, indexing, \<open>==\<close> and \<open><\<close> are not overridden by the class: they are the ones of
  \<open>tuple\<close> and read the payload only. \<open>tuple_lt\<close> is the lexicographic order of tuples:
  the first differing position decides, else the shorter tuple is smaller.
\<close>

fun tuple_lt :: "int list \<Rightarrow> int list \<Rightarrow> bool" where
  "tuple_lt [] [] = False"
| "tuple_lt [] (y # ys) = True"
| "tuple_lt (x # xs) [] = False"
| "tuple_lt (x # xs) (y # ys) = (if x = y then tuple_lt xs ys else x < y)"

definition struct_time_len :: "struct_time \<Rightarrow> nat" where
  "struct_time_len t = length (items t)"

definition struct_time_getitem :: "struct_time \<Rightarrow> int \<Rightarrow> error + int" where
  "struct_time_getitem t i = py_index (items t) i"

definition struct_time_eq :: "struct_time \<Rightarrow> struct_time \<Rightarrow> bool" where
  "struct_time_eq t u = (items t = items u)"

definition struct_time_lt :: "struct_time \<Rightarrow> struct_time \<Rightarrow> bool" where
  "struct_time_lt t u = tuple_lt (items t) (items u)"

section \<open>Calendar arithmetic\<close>

text \<open>\<open>_calc_weekday\<close>: \<open>year - (month < 3)\<close> subtracts the truth value as 0 or 1.\<close>

definition calc_weekday :: "int \<Rightarrow> int \<Rightarrow> int \<Rightarrow> error + int" where
  "calc_weekday year month day =
     (let t = [0, 3, 2, 5, 0, 3, 5, 1, 4, 6, 2, 4];
          y = year - (if month < 3 then 1 else 0)
      in and_then (py_index t (month - 1))
           (\<lambda>tm. let w = (y + y div 4 - y div 100 + y div 400 + tm + day) mod 7
                  in Inr ((w - 1) mod 7)))"

definition is_leap :: "int \<Rightarrow> bool" where
  "is_leap year = ((year mod 4 = 0 \<and> year mod 100 \<noteq> 0) \<or> year mod 400 = 0)"

definition month_days :: "int list" where
  "month_days = [31, 28, 31, 30, 31, 30, 31, 31, 30, 31, 30, 31]"

text \<open>The copy of \<open>_month_days\<close> with February set to 29 in a leap year.\<close>

definition leap_patched :: "int \<Rightarrow> int list" where
  "leap_patched year = (if is_leap year then month_days[1 := 29] else month_days)"

definition calc_yday :: "int \<Rightarrow> int \<Rightarrow> int \<Rightarrow> int" where
  "calc_yday year month day = day + sum_list (py_prefix (leap_patched year) (month - 1))"

text \<open>
  The \<open>while 1\<close> loop of \<open>localtime\<close> that walks whole years forward from 1970; it
  returns the remaining days and the year.
\<close>

function year_loop :: "int \<Rightarrow> int \<Rightarrow> int \<times> int" where
  "year_loop days year =
     (if days \<ge> (if is_leap year then 366 else 365)
      then year_loop (days - (if is_leap year then 366 else 365)) (year + 1)
      else (days, year))"
  by pat_completeness auto
termination
  by (relation "measure (\<lambda>(days, year). nat days)") (auto split: if_splits)

text \<open>
  The \<open>for mlen in mdays\<close> loop of \<open>localtime\<close>; it leaves the loop at the first month
  that holds the day, or when the list is used up.
\<close>

fun month_loop :: "int list \<Rightarrow> int \<Rightarrow> int \<Rightarrow> int \<times> int" where
  "month_loop [] days month = (days, month)"
| "month_loop (mlen # rest) days month =
     (if days + 1 > mlen then month_loop rest (days - mlen) (month + 1) else (days, month))"

text \<open>
  What \<open>GetLocalTime\<close> writes: the fields of \<open>SYSTEMTIME\<close> are 16-bit unsigned
  (\<open>WORD\<close>), read by Python as non-negative integers.
\<close>

record SYSTEMTIME =
  wYear :: "16 word"
  wMonth :: "16 word"
  wDayOfWeek :: "16 word"
  wDay :: "16 word"
  wHour :: "16 word"
  wMinute :: "16 word"
  wSecond :: "16 word"
  wMilliseconds :: "16 word"

text \<open>
  The end of \<open>localtime\<close>, shared by its two branches: weekday, day of the year, a DST
  flag that is the constant 0, and the construction of the result.
\<close>

definition localtime_result ::
  "int \<Rightarrow> int \<Rightarrow> int \<Rightarrow> int \<Rightarrow> int \<Rightarrow> int \<Rightarrow> error + struct_time" where
  "localtime_result year month day hour minute second =
     and_then (calc_weekday year month day)
       (\<lambda>wday. let yday = calc_yday year month day; isdst = 0
               in struct_time_new [year, month, day, hour, minute, second, wday, yday, isdst])"

text \<open>
  \<open>localtime(seconds)\<close>. The first argument is what \<open>GetLocalTime\<close> returns when it is
  asked (only when \<open>seconds\<close> is \<open>None\<close>). An explicit \<open>seconds\<close> is an integer here.
\<close>

definition localtime :: "SYSTEMTIME \<Rightarrow> int option \<Rightarrow> error + struct_time" where
  "localtime st seconds =
     (case seconds of
        Some secs \<Rightarrow>
          (let second = secs mod 60;
               secs1 = secs div 60;
               minute = secs1 mod 60;
               secs2 = secs1 div 60;
               hour = secs2 mod 24;
               days = secs2 div 24;
               (days1, year) = year_loop days 1970;
               (days2, month) = month_loop (leap_patched year) days1 1;
               day = days2 + 1
           in localtime_result year month day hour minute second)
      | None \<Rightarrow>
          (let year = uint (wYear st); month = uint (wMonth st); day = uint (wDay st);
               hour = uint (wHour st); minute = uint (wMinute st); second = uint (wSecond st)
           in if day = 0
              then (let month1 = month - 1;
                        year1 = (if month1 = 0 then year - 1 else year);
                        month2 = (if month1 = 0 then 12 else month1)
                    in and_then (py_index (leap_patched year1) (month2 - 1))
                         (\<lambda>day1. localtime_result year1 month2 day1 hour minute second))
              else localtime_result year month day hour minute second))"

text \<open>
  \<open>gmtime(seconds)\<close> for an explicit argument: the body is \<open>return localtime(seconds)\<close>.
  (Without an argument it first reads the wall clock \<open>time()\<close>, a float.)
\<close>

definition gmtime :: "SYSTEMTIME \<Rightarrow> int \<Rightarrow> error + struct_time" where
  "gmtime st seconds = localtime st (Some seconds)"

section \<open>From the broken-down time back to seconds\<close>

text \<open>
  What \<open>GetTimeZoneInformation\<close> writes into \<open>_tzi\<close>: the three biases are signed
  32-bit (\<open>LONG\<close>), in minutes. The names and the transition dates of the structure are
  not read by the functions below.
\<close>

record TIME_ZONE_INFORMATION =
  Bias :: "32 word"
  StandardBias :: "32 word"
  DaylightBias :: "32 word"

text \<open>
  \<open>_get_local_utc_offset_seconds(isdst_flag)\<close>; the argument \<open>tzi\<close> is the timezone
  state that the call reads from the system.
\<close>

definition get_local_utc_offset_seconds :: "TIME_ZONE_INFORMATION \<Rightarrow> int \<Rightarrow> int" where
  "get_local_utc_offset_seconds tzi isdst_flag =
     (let bias = sint (Bias tzi);
          bias1 = (if isdst_flag > 0 then bias + sint (DaylightBias tzi) else bias)
      in bias1 * 60)"

text \<open>
  \<open>mktime(tuple)\<close>: it reads the named attributes only. \<open>range(1970, year)\<close> is the list
  \<open>[1970..year - 1]\<close>, empty when \<open>year \<le> 1970\<close>.
\<close>

definition mktime :: "TIME_ZONE_INFORMATION \<Rightarrow> struct_time \<Rightarrow> int" where
  "mktime tzi t =
     (let year = tm_year t; mon = tm_mon t; mday = tm_mday t;
          hour = tm_hour t; minute = tm_min t; sec = tm_sec t;
          days = fold (\<lambda>y days. days + (if is_leap y then 366 else 365)) [1970..year - 1] 0;
          mdays = leap_patched year;
          days1 = days + sum_list (py_prefix mdays (mon - 1));
          days2 = days1 + (mday - 1);
          local_secs = days2 * 86400 + hour * 3600 + minute * 60 + sec;
          offset_sec = get_local_utc_offset_seconds tzi (tm_isdst t)
      in local_secs + offset_sec)"

section \<open>Formatting\<close>

text \<open>The fixed name tables of the module.\<close>

definition weekdays :: "string list" where
  "weekdays = [''Mon'', ''Tue'', ''Wed'', ''Thu'', ''Fri'', ''Sat'', ''Sun'']"

definition weekdays_full :: "string list" where
  "weekdays_full = [''Monday'', ''Tuesday'', ''Wednesday'', ''Thursday'',
                    ''Friday'', ''Saturday'', ''Sunday'']"

definition months :: "string list" where
  "months = [''Jan'', ''Feb'', ''Mar'', ''Apr'', ''May'', ''Jun'',
             ''Jul'', ''Aug'', ''Sep'', ''Oct'', ''Nov'', ''Dec'']"

definition months_full :: "string list" where
  "months_full = [''January'', ''February'', ''March'', ''April'', ''May'', ''June'',
                  ''July'', ''August'', ''September'', ''October'', ''November'', ''December'']"

text \<open>
  \<open>str(n)\<close> for an integer: the decimal digits, after a minus sign when negative.
\<close>

fun nat_digits :: "nat \<Rightarrow> string" where
  "nat_digits n =
     (if n < 10 then [''0123456789'' ! n]
      else nat_digits (n div 10) @ [''0123456789'' ! (n mod 10)])"

declare nat_digits.simps [simp del]

definition py_str :: "int \<Rightarrow> string" where
  "py_str n = (if n < 0 then CHR ''-'' # nat_digits (nat (- n)) else nat_digits (nat n))"

text \<open>
  \<open>s.zfill(width)\<close>: zeros are put on the left up to the width, behind a leading sign.
\<close>

definition zfill :: "string \<Rightarrow> nat \<Rightarrow> string" where
  "zfill s width =
     (if width \<le> length s then s
      else (case s of
              c # rest \<Rightarrow>
                if c = CHR ''+'' \<or> c = CHR ''-''
                then c # replicate (width - length s) (CHR ''0'') @ rest
                else replicate (width - length s) (CHR ''0'') @ s
            | [] \<Rightarrow> replicate width (CHR ''0'')))"

text \<open>\<open>_zero(n, width)\<close>; every caller in the module uses the default width 2.\<close>

definition zero_pad :: "int \<Rightarrow> nat \<Rightarrow> string" where
  "zero_pad n width = zfill (py_str n) width"

text \<open>
  Reading an attribute of the argument \<open>tuple\<close>, which is \<open>None\<close> by default: on
  \<open>None\<close> the read raises \<open>AttributeError\<close>.
\<close>

definition attr :: "(struct_time \<Rightarrow> 'a) \<Rightarrow> struct_time option \<Rightarrow> error + 'a" where
  "attr field tm = (case tm of None \<Rightarrow> Inl AttributeError | Some t \<Rightarrow> Inr (field t))"

text \<open>\<open>_yday(tm)\<close>.\<close>

definition yday :: "struct_time option \<Rightarrow> error + string" where
  "yday tm = and_then (attr tm_yday tm) (\<lambda>n. Inr (zfill (py_str n) 3))"

text \<open>
  The dictionary \<open>_strtime_handlers\<close>, from the code character to its renderer, in
  the order of the source (the keys are distinct). \<open>CHR 0x25\<close> is the percent sign.
\<close>

definition strtime_handlers :: "(char \<times> (struct_time option \<Rightarrow> error + string)) list" where
  "strtime_handlers =
     [(CHR ''Y'', \<lambda>tm. and_then (attr tm_year tm) (\<lambda>n. Inr (py_str n))),
      (CHR ''y'', \<lambda>tm. and_then (attr tm_year tm) (\<lambda>n. Inr (zero_pad (n mod 100) 2))),
      (CHR ''m'', \<lambda>tm. and_then (attr tm_mon tm) (\<lambda>n. Inr (zero_pad n 2))),
      (CHR ''d'', \<lambda>tm. and_then (attr tm_mday tm) (\<lambda>n. Inr (zero_pad n 2))),
      (CHR ''H'', \<lambda>tm. and_then (attr tm_hour tm) (\<lambda>n. Inr (zero_pad n 2))),
      (CHR ''M'', \<lambda>tm. and_then (attr tm_min tm) (\<lambda>n. Inr (zero_pad n 2))),
      (CHR ''S'', \<lambda>tm. and_then (attr tm_sec tm) (\<lambda>n. Inr (zero_pad n 2))),
      (CHR ''a'', \<lambda>tm. and_then (attr tm_wday tm) (\<lambda>n. py_index weekdays n)),
      (CHR ''A'', \<lambda>tm. and_then (attr tm_wday tm) (\<lambda>n. py_index weekdays_full n)),
      (CHR ''b'', \<lambda>tm. and_then (attr tm_mon tm) (\<lambda>n. py_index months (n - 1))),
      (CHR ''B'', \<lambda>tm. and_then (attr tm_mon tm) (\<lambda>n. py_index months_full (n - 1))),
      (CHR ''w'', \<lambda>tm. and_then (attr tm_wday tm) (\<lambda>n. Inr (py_str n))),
      (CHR ''j'', \<lambda>tm. yday tm),
      (CHR 0x25, \<lambda>tm. Inr [CHR 0x25])]"

text \<open>
  The \<open>while i < L\<close> loop of \<open>strftime\<close> with its index \<open>i\<close> and the list \<open>res\<close>
  of pieces; \<open>_strtime_handlers.get(code)\<close> is \<open>map_of strtime_handlers code\<close>, and a
  renderer that raises ends the call.
\<close>

function strftime_loop ::
  "string \<Rightarrow> struct_time option \<Rightarrow> nat \<Rightarrow> string list \<Rightarrow> error + string list" where
  "strftime_loop format tuple i res =
     (if i < length format
      then (if format ! i = CHR 0x25 \<and> i + 1 < length format
            then (case map_of strtime_handlers (format ! (i + 1)) of
                    Some fn \<Rightarrow>
                      (case fn tuple of
                         Inl e \<Rightarrow> Inl e
                       | Inr s \<Rightarrow> strftime_loop format tuple (i + 2) (res @ [s]))
                  | None \<Rightarrow>
                      strftime_loop format tuple (i + 2) (res @ [[CHR 0x25, format ! (i + 1)]]))
            else strftime_loop format tuple (i + 1) (res @ [[format ! i]]))
      else Inr res)"
  by pat_completeness auto
termination
  by (relation "measure (\<lambda>(format, tuple, i, res). length format - i)") auto

declare strftime_loop.simps [simp del]

text \<open>\<open>strftime(format, tuple)\<close>: the loop from index 0, then \<open>''.join(res)\<close>.\<close>

definition strftime :: "string \<Rightarrow> struct_time option \<Rightarrow> error + string" where
  "strftime format tuple = and_then (strftime_loop format tuple 0 []) (\<lambda>res. Inr (concat res))"

section \<open>Clock metadata\<close>

text \<open>
  The \<open>resolution\<close> of a clock is a float in the source. It is kept here as the expression
  that computes it: the literal \<open>1e-7\<close>, or \<open>1 / _frequency\<close> for the integer
  \<open>_frequency\<close>.
\<close>

datatype resolution_value = Literal_1e_7 | One_over int

record clock_info =
  resolution :: resolution_value
  adjustable :: bool
  implementation :: string
  monotonic :: bool

text \<open>
  \<open>name.lower()\<close> on the ASCII letters: an upper-case letter becomes its lower-case
  letter, any other character is kept.
\<close>

definition lower_char :: "char \<Rightarrow> char" where
  "lower_char c =
     (case map_of (zip ''ABCDEFGHIJKLMNOPQRSTUVWXYZ'' ''abcdefghijklmnopqrstuvwxyz'') c of
        Some d \<Rightarrow> d
      | None \<Rightarrow> c)"

definition lower :: "string \<Rightarrow> string" where
  "lower s = map lower_char s"

text \<open>
  \<open>get_clock_info(name)\<close>. The first argument is \<open>_frequency\<close>, the value of the 64-bit
  signed counter frequency (\<open>c_longlong\<close>) that the module reads once when it is loaded;
  \<open>1 / _frequency\<close> raises \<open>ZeroDivisionError\<close> when it is 0.
\<close>

definition get_clock_info :: "64 word \<Rightarrow> string \<Rightarrow> error + clock_info" where
  "get_clock_info frequency name =
     (let name1 = lower name
      in if name1 \<in> set [''monotonic'', ''perf_counter'']
         then (if sint frequency = 0 then Inl ZeroDivisionError
               else Inr \<lparr>resolution = One_over (sint frequency), adjustable = False,
                         implementation = ''QueryPerformanceCounter'', monotonic = True\<rparr>)
         else if name1 = ''process_time''
         then Inr \<lparr>resolution = Literal_1e_7, adjustable = False,
                   implementation = ''GetProcessTimes'', monotonic = True\<rparr>
         else if name1 = ''thread_time''
         then Inr \<lparr>resolution = Literal_1e_7, adjustable = False,
                   implementation = ''GetThreadTimes'', monotonic = True\<rparr>
         else if name1 = ''time''
         then Inr \<lparr>resolution = Literal_1e_7, adjustable = True,
                   implementation = ''GetSystemTimeAsFileTime'', monotonic = False\<rparr>
         else Inl ValueError)"

text \<open>The clock identifiers that \<open>get_clock_info\<close> knows.\<close>

definition clock_names :: "string list" where
  "clock_names = [''monotonic'', ''perf_counter'', ''process_time'', ''thread_time'', ''time'']"

section \<open>Auxiliary notions for the proofs\<close>

text \<open>The length of a year in days, and the days from 1970-01-01 to the start of a year
  (the sum that \<open>mktime\<close> accumulates).\<close>

definition year_len :: "int \<Rightarrow> int" where
  "year_len y = (if is_leap y then 366 else 365)"

definition days_to_year :: "int \<Rightarrow> int" where
  "days_to_year year =
     fold (\<lambda>y days. days + (if is_leap y then 366 else 365)) [1970..year - 1] 0"

text \<open>The number of leap days up to and including a year, as the weekday formula counts them.\<close>

definition leap_count :: "int \<Rightarrow> int" where
  "leap_count y = y div 4 - y div 100 + y div 400"

section \<open>The year and month loops\<close>

lemma days_to_year_1970: "days_to_year 1970 = 0"
  by (simp add: days_to_year_def)

lemma days_to_year_Suc: "1970 \<le> y \<Longrightarrow> days_to_year (y + 1) = days_to_year y + year_len y"
  by (simp add: days_to_year_def year_len_def upto_rec2 [of 1970 y])

lemma year_loop_inv:
  "year_loop d y = (d', y') \<Longrightarrow> 1970 \<le> y \<Longrightarrow> 0 \<le> d \<Longrightarrow>
     1970 \<le> y' \<and> 0 \<le> d' \<and> d' < year_len y' \<and> days_to_year y' + d' = days_to_year y + d"
proof (induction d y rule: year_loop.induct)
  case (1 days year)
  show ?case
  proof (cases "days \<ge> year_len year")
    case True
    then have step: "year_loop (days - year_len year) (year + 1) = (d', y')"
      using "1.prems"(1) by (subst (asm) year_loop.simps) (simp add: year_len_def)
    have "0 \<le> days - year_len year" using True by simp
    moreover have "1970 \<le> year + 1" using "1.prems"(2) by simp
    ultimately have "1970 \<le> y' \<and> 0 \<le> d' \<and> d' < year_len y' \<and>
        days_to_year y' + d' = days_to_year (year + 1) + (days - year_len year)"
      using "1.IH" True step by (simp add: year_len_def)
    then show ?thesis using days_to_year_Suc [OF "1.prems"(2)] by simp
  next
    case False
    then have "d' = days" "y' = year"
      using "1.prems"(1) by (subst (asm) year_loop.simps, simp add: year_len_def)+
    then show ?thesis using False "1.prems" by simp
  qed
qed

lemma year_loop_neg: "d < 365 \<Longrightarrow> year_loop d y = (d, y)"
  by (subst year_loop.simps) simp

lemma month_loop_inv:
  assumes "0 \<le> d" "d < year_len y" "month_loop (leap_patched y) d 1 = (d', m)"
  shows "1 \<le> m \<and> m \<le> 12 \<and> 0 \<le> d' \<and> py_index (leap_patched y) (m - 1) \<noteq> Inl IndexError
     \<and> (\<forall>l. py_index (leap_patched y) (m - 1) = Inr l \<longrightarrow> d' < l)
     \<and> sum_list (py_prefix (leap_patched y) (m - 1)) + d' = d"
  using assms
  by (cases "is_leap y") (auto simp: leap_patched_def month_days_def year_len_def py_index_def py_prefix_def split: if_splits)

section \<open>Leap days and the weekday congruence\<close>

lemma div_step:
  fixes y k :: int
  assumes k: "0 < k"
  shows "(y + 1) div k = y div k + (if (y + 1) mod k = 0 then 1 else 0)"
proof (cases "y mod k + 1 < k")
  case True
  have eq: "y + 1 = k * (y div k) + (y mod k + 1)" by simp
  have "0 \<le> y mod k + 1" using k by (simp add: add_nonneg_nonneg)
  then have "(y + 1) div k = y div k" and "(y + 1) mod k = y mod k + 1"
    using int_div_pos_eq [OF eq _ True] int_mod_pos_eq [OF eq _ True] by auto
  moreover have "y mod k + 1 \<noteq> 0"
    using pos_mod_sign [OF k, of y] by linarith
  ultimately show ?thesis by simp
next
  case False
  then have r: "y mod k = k - 1" using pos_mod_bound [OF k, of y] by linarith
  have "y = k * (y div k) + (k - 1)"
    using r mult_div_mod_eq [of k y] by simp
  then have "y + 1 = k * (y div k) + k" by linarith
  then have eq: "y + 1 = k * (y div k + 1) + 0"
    by (simp add: distrib_left)
  have "(y + 1) div k = y div k + 1" and "(y + 1) mod k = 0"
    using int_div_pos_eq [OF eq _ k] int_mod_pos_eq [OF eq _ k] by auto
  then show ?thesis by simp
qed

lemma mod_100_4: "(y::int) mod 100 = 0 \<Longrightarrow> y mod 4 = 0"
  by presburger

lemma mod_400_100: "(y::int) mod 400 = 0 \<Longrightarrow> y mod 100 = 0"
  by presburger

lemma leap_count_step: "leap_count (y + 1) = leap_count y + (if is_leap (y + 1) then 1 else 0)"
  using mod_100_4 [of "y + 1"] mod_400_100 [of "y + 1"]
  by (simp add: leap_count_def is_leap_def div_step)


lemma days_to_year_closed:
  "1970 \<le> y \<Longrightarrow> days_to_year y = 365 * (y - 1970) + leap_count (y - 1) - 477"
proof (induction y rule: int_ge_induct)
  case base
  show ?case by (simp add: days_to_year_1970 leap_count_def)
next
  case (step i)
  have "leap_count i = leap_count (i - 1) + (if is_leap i then 1 else 0)"
    using leap_count_step [of "i - 1"] by simp
  then show ?case
    using step by (simp add: days_to_year_Suc year_len_def)
qed

lemma weekday_congruence:
  fixes a b :: int
  assumes "7 dvd (a - 1 - b)"
  shows "(a mod 7 - 1) mod 7 = b mod 7"
proof -
  have "(a mod 7 - 1) mod 7 = (a - 1) mod 7" by (simp add: mod_diff_left_eq)
  also have "\<dots> = b mod 7" using assms by (simp add: mod_eq_dvd_iff)
  finally show ?thesis .
qed

lemma weekday_low:
  fixes y x t c d :: int
  assumes "7 dvd (t - c)"
  shows "((y - 1 + x + t + d) mod 7 - 1) mod 7 =
         (365 * (y - 1970) + x - 477 + c + (d - 1) + 3) mod 7"
proof (rule weekday_congruence)
  obtain k where "t - c = 7 * k" using assms by (auto simp: dvd_def)
  then have k: "t = c + 7 * k" by simp
  have e: "y - 1 + x + t + d - 1 - (365 * (y - 1970) + x - 477 + c + (d - 1) + 3)
        = 7 * (k - 52 * y + 102789)" unfolding k by (simp add: algebra_simps)
  show "7 dvd (y - 1 + x + t + d - 1 - (365 * (y - 1970) + x - 477 + c + (d - 1) + 3))"
    unfolding e by (rule dvd_triv_left)
qed

lemma weekday_high:
  fixes y x t c d :: int
  assumes "7 dvd (t + 1 - c)"
  shows "((y + (x + l) + t + d) mod 7 - 1) mod 7 =
         (365 * (y - 1970) + x - 477 + (c + l) + (d - 1) + 3) mod 7"
proof (rule weekday_congruence)
  obtain k where "t + 1 - c = 7 * k" using assms by (auto simp: dvd_def)
  then have k: "t = c + 7 * k - 1" by simp
  have e: "y + (x + l) + t + d - 1 - (365 * (y - 1970) + x - 477 + (c + l) + (d - 1) + 3)
        = 7 * (k - 52 * y + 102789)" unfolding k by (simp add: algebra_simps)
  show "7 dvd (y + (x + l) + t + d - 1 - (365 * (y - 1970) + x - 477 + (c + l) + (d - 1) + 3))"
    unfolding e by (rule dvd_triv_left)
qed

lemma calc_weekday_unfold:
  "calc_weekday year month day =
     and_then (py_index [0, 3, 2, 5, 0, 3, 5, 1, 4, 6, 2, 4] (month - 1))
       (\<lambda>tm. Inr (((year - (if month < 3 then 1 else 0)
                     + leap_count (year - (if month < 3 then 1 else 0)) + tm + day) mod 7 - 1) mod 7))"
  by (simp add: calc_weekday_def leap_count_def Let_def algebra_simps)

lemma calc_weekday_days:
  assumes "1970 \<le> y" "1 \<le> m" "m \<le> 12"
  shows "calc_weekday y m d =
     Inr ((days_to_year y + sum_list (py_prefix (leap_patched y) (m - 1)) + (d - 1) + 3) mod 7)"
proof -
  define x where "x = leap_count (y - 1)"
  define l :: int where "l = (if is_leap y then 1 else 0)"
  have lc: "leap_count y = x + l"
    using leap_count_step [of "y - 1"] by (simp add: x_def l_def)
  have dy: "days_to_year y = 365 * (y - 1970) + x - 477"
    using days_to_year_closed [OF assms(1)] by (simp add: x_def)
  have m: "m = 1 \<or> m = 2 \<or> m = 3 \<or> m = 4 \<or> m = 5 \<or> m = 6 \<or> m = 7 \<or> m = 8 \<or> m = 9
      \<or> m = 10 \<or> m = 11 \<or> m = 12"
    using assms(2,3) by arith
  have low: "m < 3 \<Longrightarrow> sum_list (py_prefix (leap_patched y) (m - 1)) = c \<Longrightarrow>
      py_index [0, 3, 2, 5, 0, 3, 5, 1, 4, 6, 2, 4] (m - 1) = Inr t \<Longrightarrow> 7 dvd (t - c) \<Longrightarrow> ?thesis" for c t :: int
    using weekday_low [of t c y x d]
    by (simp add: calc_weekday_unfold and_then_def dy x_def)
  have high: "\<not> m < 3 \<Longrightarrow> sum_list (py_prefix (leap_patched y) (m - 1)) = c + l \<Longrightarrow>
      py_index [0, 3, 2, 5, 0, 3, 5, 1, 4, 6, 2, 4] (m - 1) = Inr t \<Longrightarrow> 7 dvd (t + 1 - c) \<Longrightarrow> ?thesis" for c t :: int
    using weekday_high [of t c y x l d]
    by (simp add: calc_weekday_unfold and_then_def dy lc)
  have pre: "py_prefix (leap_patched y) (m - 1) = take (nat (m - 1)) (leap_patched y)"
    using assms(2) by (simp add: py_prefix_def)
  from m show ?thesis
  proof (elim disjE)
    assume "m = 1" then show ?thesis
      by (intro low [of 0 0]) (simp_all add: py_index_def py_prefix_def)
  next
    assume "m = 2" then show ?thesis
      by (intro low [of 31 3]) (simp_all add: py_index_def py_prefix_def leap_patched_def month_days_def)
  next
    assume "m = 3" then show ?thesis
      by (intro high [of 59 2]) (simp_all add: py_index_def py_prefix_def leap_patched_def month_days_def l_def)
  next
    assume "m = 4" then show ?thesis
      by (intro high [of 90 5]) (simp_all add: py_index_def py_prefix_def leap_patched_def month_days_def l_def)
  next
    assume "m = 5" then show ?thesis
      by (intro high [of 120 0]) (simp_all add: py_index_def py_prefix_def leap_patched_def month_days_def l_def)
  next
    assume "m = 6" then show ?thesis
      by (intro high [of 151 3]) (simp_all add: py_index_def py_prefix_def leap_patched_def month_days_def l_def)
  next
    assume "m = 7" then show ?thesis
      by (intro high [of 181 5]) (simp_all add: py_index_def py_prefix_def leap_patched_def month_days_def l_def)
  next
    assume "m = 8" then show ?thesis
      by (intro high [of 212 1]) (simp_all add: py_index_def py_prefix_def leap_patched_def month_days_def l_def)
  next
    assume "m = 9" then show ?thesis
      by (intro high [of 243 4]) (simp_all add: py_index_def py_prefix_def leap_patched_def month_days_def l_def)
  next
    assume "m = 10" then show ?thesis
      by (intro high [of 273 6]) (simp_all add: py_index_def py_prefix_def leap_patched_def month_days_def l_def)
  next
    assume "m = 11" then show ?thesis
      by (intro high [of 304 2]) (simp_all add: py_index_def py_prefix_def leap_patched_def month_days_def l_def)
  next
    assume "m = 12" then show ?thesis
      by (intro high [of 334 4]) (simp_all add: py_index_def py_prefix_def leap_patched_def month_days_def l_def)
  qed
qed

section \<open>What \<open>localtime\<close> returns for an explicit argument\<close>

lemma days_of_seconds: "s div 60 div 60 div 24 = s div 86400" for s :: int
proof -
  have "s div 60 div 60 = s div 3600" by (simp add: div_mult2_eq [symmetric])
  then show ?thesis by (simp add: div_mult2_eq [symmetric])
qed

lemma seconds_recompose:
  "(s div 60 div 60 div 24) * 86400 + (s div 60 div 60 mod 24) * 3600 + (s div 60 mod 60) * 60
     + s mod 60 = s" for s :: int
proof -
  define a where "a = s div 60"
  define b where "b = a div 60"
  have 1: "s = 60 * a + s mod 60" by (simp add: a_def)
  have 2: "a = 60 * b + a mod 60" by (simp add: b_def)
  have 3: "b = 24 * (b div 24) + b mod 24" by simp
  have "(b div 24) * 86400 + (b mod 24) * 3600 + (a mod 60) * 60 + s mod 60 = s"
    using 1 2 3 by linarith
  then show ?thesis by (simp add: a_def b_def)
qed

lemma struct_time_new_nine:
  "struct_time_new [y, mo, d, h, mi, s, wd, yd, dst] =
     Inr \<lparr>items = [], tm_year = y, tm_mon = mo, tm_mday = d, tm_hour = h, tm_min = mi,
          tm_sec = s, tm_wday = wd, tm_yday = yd, tm_isdst = dst\<rparr>"
  by (simp add: struct_time_new_def)

lemma localtime_result_ok:
  assumes "calc_weekday y m d = Inr w"
  shows "localtime_result y m d h mi sec =
     Inr \<lparr>items = [], tm_year = y, tm_mon = m, tm_mday = d, tm_hour = h, tm_min = mi,
          tm_sec = sec, tm_wday = w, tm_yday = calc_yday y m d, tm_isdst = 0\<rparr>"
  using assms by (simp add: localtime_result_def and_then_def struct_time_new_nine)

lemma localtime_nonneg:
  assumes "0 \<le> s"
  shows "\<exists>y m d. localtime st (Some s) =
       Inr \<lparr>items = [], tm_year = y, tm_mon = m, tm_mday = d,
            tm_hour = s div 60 div 60 mod 24, tm_min = s div 60 mod 60, tm_sec = s mod 60,
            tm_wday = (s div 86400 + 3) mod 7, tm_yday = calc_yday y m d, tm_isdst = 0\<rparr>
     \<and> 1970 \<le> y \<and> 1 \<le> m \<and> m \<le> 12 \<and> 1 \<le> d
     \<and> (\<forall>l. py_index (leap_patched y) (m - 1) = Inr l \<longrightarrow> d \<le> l)
     \<and> days_to_year y + sum_list (py_prefix (leap_patched y) (m - 1)) + (d - 1) = s div 86400"
proof -
  define days where "days = s div 60 div 60 div 24"
  obtain d1 y where yl: "year_loop days 1970 = (d1, y)" by (cases "year_loop days 1970")
  obtain d2 m where ml: "month_loop (leap_patched y) d1 1 = (d2, m)"
    by (cases "month_loop (leap_patched y) d1 1")
  have days0: "0 \<le> days" using assms by (simp add: days_def pos_imp_zdiv_nonneg_iff)
  have yi: "1970 \<le> y \<and> 0 \<le> d1 \<and> d1 < year_len y \<and> days_to_year y + d1 = days"
    using year_loop_inv [OF yl _ days0] by (simp add: days_to_year_1970)
  have mi: "1 \<le> m \<and> m \<le> 12 \<and> 0 \<le> d2 \<and>
      (\<forall>l. py_index (leap_patched y) (m - 1) = Inr l \<longrightarrow> d2 < l) \<and>
      sum_list (py_prefix (leap_patched y) (m - 1)) + d2 = d1"
    using month_loop_inv [OF _ _ ml] yi by simp
  have total: "days_to_year y + sum_list (py_prefix (leap_patched y) (m - 1)) + d2 = days"
    using yi mi by linarith
  have wd: "calc_weekday y m (d2 + 1) = Inr ((s div 86400 + 3) mod 7)"
    using calc_weekday_days [of y m "d2 + 1"] yi mi total
    by (simp add: days_def days_of_seconds)
  have lt: "localtime st (Some s) = localtime_result y m (d2 + 1)
      (s div 60 div 60 mod 24) (s div 60 mod 60) (s mod 60)"
    using yl ml by (simp add: localtime_def Let_def days_def)
  have "localtime st (Some s) =
       Inr \<lparr>items = [], tm_year = y, tm_mon = m, tm_mday = d2 + 1,
            tm_hour = s div 60 div 60 mod 24, tm_min = s div 60 mod 60, tm_sec = s mod 60,
            tm_wday = (s div 86400 + 3) mod 7, tm_yday = calc_yday y m (d2 + 1), tm_isdst = 0\<rparr>"
    unfolding lt by (rule localtime_result_ok [OF wd])
  moreover have "1 \<le> d2 + 1" using mi by simp
  moreover have "\<forall>l. py_index (leap_patched y) (m - 1) = Inr l \<longrightarrow> d2 + 1 \<le> l"
    using mi by auto
  moreover have "days_to_year y + sum_list (py_prefix (leap_patched y) (m - 1)) + (d2 + 1 - 1)
      = s div 86400"
    using total by (simp add: days_def days_of_seconds)
  ultimately show ?thesis using yi mi by blast
qed

lemma localtime_negative:
  assumes "s < 0"
  shows "\<exists>w. localtime st (Some s) =
       Inr \<lparr>items = [], tm_year = 1970, tm_mon = 1, tm_mday = s div 86400 + 1,
            tm_hour = s div 60 div 60 mod 24, tm_min = s div 60 mod 60, tm_sec = s mod 60,
            tm_wday = w, tm_yday = s div 86400 + 1, tm_isdst = 0\<rparr>"
proof -
  define days where "days = s div 60 div 60 div 24"
  have neg: "days < 0" using assms by (simp add: days_def days_of_seconds neg_imp_zdiv_neg_iff)
  have yl: "year_loop days 1970 = (days, 1970)" using neg by (intro year_loop_neg) simp
  have ml: "month_loop (leap_patched 1970) days 1 = (days, 1)"
    using neg by (simp add: leap_patched_def is_leap_def month_days_def)
  have lt: "localtime st (Some s) = localtime_result 1970 1 (days + 1)
      (s div 60 div 60 mod 24) (s div 60 mod 60) (s mod 60)"
    using yl ml by (simp add: localtime_def Let_def days_def)
  obtain w where wd: "calc_weekday 1970 1 (days + 1) = Inr w"
    by (simp add: calc_weekday_def py_index_def and_then_def)
  have yd: "calc_yday 1970 1 (days + 1) = days + 1"
    by (simp add: calc_yday_def py_prefix_def)
  show ?thesis
    unfolding lt using localtime_result_ok [OF wd] yd
    by (auto simp: days_def days_of_seconds)
qed

lemma localtime_feb_29:
  assumes "localtime st (Some s) = Inr tm" "tm_mon tm = 2" "tm_mday tm = 29"
  shows "is_leap (tm_year tm)"
proof (cases "0 \<le> s")
  case True
  obtain y m d where lt: "localtime st (Some s) =
       Inr \<lparr>items = [], tm_year = y, tm_mon = m, tm_mday = d,
            tm_hour = s div 60 div 60 mod 24, tm_min = s div 60 mod 60, tm_sec = s mod 60,
            tm_wday = (s div 86400 + 3) mod 7, tm_yday = calc_yday y m d, tm_isdst = 0\<rparr>"
    and len: "\<forall>l. py_index (leap_patched y) (m - 1) = Inr l \<longrightarrow> d \<le> l"
    using localtime_nonneg [OF True, of st] by blast
  from lt assms have ymd: "tm_year tm = y" "m = 2" "d = 29" by auto
  show ?thesis
  proof (rule ccontr)
    assume "\<not> is_leap (tm_year tm)"
    then have "py_index (leap_patched y) (m - 1) = Inr 28"
      using ymd by (simp add: leap_patched_def month_days_def py_index_def)
    with len have "d \<le> 28" by blast
    with ymd show False by simp
  qed
next
  case False
  then have "s < 0" by simp
  from localtime_negative [OF this, of st] assms show ?thesis by auto
qed

text \<open>
  From the epoch on, every field that \<open>localtime\<close> reports is in its documented range.
\<close>

lemma month_length_bounds:
  assumes "1 \<le> m" "m \<le> 12" "1 \<le> d"
    and "\<forall>l. py_index (leap_patched y) (m - 1) = Inr l \<longrightarrow> d \<le> l"
  shows "d \<le> 31 \<and> 1 \<le> calc_yday y m d \<and> calc_yday y m d \<le> 366"
proof -
  define xs where "xs = leap_patched y"
  have len: "length xs = 12" by (simp add: xs_def leap_patched_def month_days_def)
  have idx: "py_index xs (m - 1) = Inr (xs ! nat (m - 1))"
    using assms(1,2) len by (simp add: py_index_def)
  have dle: "d \<le> xs ! nat (m - 1)" using assms(4) idx by (simp add: xs_def)
  have yd: "calc_yday y m d = d + sum_list (take (nat (m - 1)) xs)"
    using assms(1) by (simp add: calc_yday_def py_prefix_def xs_def)
  have m: "m = 1 \<or> m = 2 \<or> m = 3 \<or> m = 4 \<or> m = 5 \<or> m = 6 \<or> m = 7 \<or> m = 8 \<or> m = 9
      \<or> m = 10 \<or> m = 11 \<or> m = 12"
    using assms(1,2) by arith
  have xs: "xs = [31, 28, 31, 30, 31, 30, 31, 31, 30, 31, 30, 31]
      \<or> xs = [31, 29, 31, 30, 31, 30, 31, 31, 30, 31, 30, 31]"
    by (simp add: xs_def leap_patched_def month_days_def)
  have "xs ! nat (m - 1) \<le> 31
      \<and> 0 \<le> sum_list (take (nat (m - 1)) xs)
      \<and> xs ! nat (m - 1) + sum_list (take (nat (m - 1)) xs) \<le> 366"
    using m xs by (elim disjE) simp_all
  then show ?thesis using dle yd assms(3) by linarith
qed

lemma localtime_nonneg_ranges:
  assumes "0 \<le> s"
  shows "\<exists>tm. localtime st (Some s) = Inr tm
     \<and> 1 \<le> tm_mon tm \<and> tm_mon tm \<le> 12 \<and> 1 \<le> tm_mday tm \<and> tm_mday tm \<le> 31
     \<and> 0 \<le> tm_hour tm \<and> tm_hour tm \<le> 23 \<and> 0 \<le> tm_min tm \<and> tm_min tm \<le> 59
     \<and> 0 \<le> tm_sec tm \<and> tm_sec tm \<le> 59 \<and> 0 \<le> tm_wday tm \<and> tm_wday tm \<le> 6
     \<and> 1 \<le> tm_yday tm \<and> tm_yday tm \<le> 366"
proof -
  obtain y m d where lt: "localtime st (Some s) =
       Inr \<lparr>items = [], tm_year = y, tm_mon = m, tm_mday = d,
            tm_hour = s div 60 div 60 mod 24, tm_min = s div 60 mod 60, tm_sec = s mod 60,
            tm_wday = (s div 86400 + 3) mod 7, tm_yday = calc_yday y m d, tm_isdst = 0\<rparr>"
    and rng: "1 \<le> m" "m \<le> 12" "1 \<le> d"
      "\<forall>l. py_index (leap_patched y) (m - 1) = Inr l \<longrightarrow> d \<le> l"
    using localtime_nonneg [OF assms, of st] by blast
  have h: "0 \<le> s div 60 div 60 mod 24" "s div 60 div 60 mod 24 \<le> 23"
    using pos_mod_bound [of 24 "s div 60 div 60"] by simp_all
  have mi: "0 \<le> s div 60 mod 60" "s div 60 mod 60 \<le> 59"
    using pos_mod_bound [of 60 "s div 60"] by simp_all
  have se: "0 \<le> s mod 60" "s mod 60 \<le> 59"
    using pos_mod_bound [of 60 s] by simp_all
  have wd: "0 \<le> (s div 86400 + 3) mod 7" "(s div 86400 + 3) mod 7 \<le> 6"
    using pos_mod_bound [of 7 "s div 86400 + 3"] by simp_all
  note b = month_length_bounds [OF rng]
  define tm where "tm = \<lparr>items = [], tm_year = y, tm_mon = m, tm_mday = d,
            tm_hour = s div 60 div 60 mod 24, tm_min = s div 60 mod 60, tm_sec = s mod 60,
            tm_wday = (s div 86400 + 3) mod 7, tm_yday = calc_yday y m d, tm_isdst = 0\<rparr>"
  have f: "tm_mon tm = m" "tm_mday tm = d" "tm_hour tm = s div 60 div 60 mod 24"
    "tm_min tm = s div 60 mod 60" "tm_sec tm = s mod 60"
    "tm_wday tm = (s div 86400 + 3) mod 7" "tm_yday tm = calc_yday y m d"
    by (simp_all add: tm_def)
  have "localtime st (Some s) = Inr tm" using lt by (simp only: tm_def)
  moreover have "1 \<le> tm_mon tm \<and> tm_mon tm \<le> 12 \<and> 1 \<le> tm_mday tm \<and> tm_mday tm \<le> 31
     \<and> 0 \<le> tm_hour tm \<and> tm_hour tm \<le> 23 \<and> 0 \<le> tm_min tm \<and> tm_min tm \<le> 59
     \<and> 0 \<le> tm_sec tm \<and> tm_sec tm \<le> 59 \<and> 0 \<le> tm_wday tm \<and> tm_wday tm \<le> 6
     \<and> 1 \<le> tm_yday tm \<and> tm_yday tm \<le> 366"
    unfolding f using rng(1,2,3) b h mi se wd by (intro conjI) (assumption | blast)+
  ultimately show ?thesis by (intro exI [of _ tm] conjI) blast+
qed

section \<open>The format loop as a pass over the characters\<close>

lemma and_then_Inr [simp]: "and_then (Inr v) f = f v"
  by (simp add: and_then_def)

lemma and_then_Inl [simp]: "and_then (Inl e) f = Inl e"
  by (simp add: and_then_def)

lemma and_then_assoc: "and_then (and_then r f) g = and_then r (\<lambda>v. and_then (f v) g)"
  by (cases r) simp_all

lemma strftime_loop_shift:
  "strftime_loop (c # format) tuple (Suc i) res = strftime_loop format tuple i res"
proof (induction "length format - i" arbitrary: i res rule: less_induct)
  case less
  show ?case
  proof (cases "i < length format")
    case False
    then show ?thesis
      by (simp add: strftime_loop.simps [of "c # format" tuple "Suc i" res]
          strftime_loop.simps [of format tuple i res])
  next
    case True
    have step1: "strftime_loop (c # format) tuple (Suc i + 1) r =
        strftime_loop format tuple (i + 1) r" for r
      using True less [of "i + 1" r] by simp
    have step2: "strftime_loop (c # format) tuple (Suc i + 2) r =
        strftime_loop format tuple (i + 2) r" for r
      using True less [of "i + 2" r] by simp
    have nth: "(c # format) ! (Suc i + 1) = format ! (i + 1)" by simp
    show ?thesis
      unfolding strftime_loop.simps [of "c # format" tuple "Suc i" res]
        strftime_loop.simps [of format tuple i res] step1 step2 nth
      using True by simp
  qed
qed

lemma strftime_loop_acc:
  "strftime_loop format tuple i res =
     and_then (strftime_loop format tuple i []) (\<lambda>r. Inr (res @ r))"
proof (induction "length format - i" arbitrary: i res rule: less_induct)
  case less
  show ?case
  proof (cases "i < length format")
    case False
    then show ?thesis by (simp add: strftime_loop.simps)
  next
    case True
    have step: "strftime_loop format tuple j (r @ [p]) =
        and_then (and_then (strftime_loop format tuple j [p]) (\<lambda>q. Inr q))
          (\<lambda>q. Inr (r @ q))" if "i < j" for j r p
    proof -
      have "length format - j < length format - i" using that True by simp
      then have "strftime_loop format tuple j (r @ [p]) =
            and_then (strftime_loop format tuple j []) (\<lambda>q. Inr ((r @ [p]) @ q))"
        and "strftime_loop format tuple j [p] =
            and_then (strftime_loop format tuple j []) (\<lambda>q. Inr ([p] @ q))"
        by (rule less)+
      then show ?thesis by (simp add: and_then_assoc)
    qed
    have nil: "and_then (and_then r (\<lambda>q. Inr q)) f = and_then r f" for r :: "error + string list"
      and f :: "string list \<Rightarrow> error + string list"
      by (cases r) simp_all
    show ?thesis
    proof (cases "format ! i = CHR 0x25 \<and> i + 1 < length format")
      case False
      then have "strftime_loop format tuple i res =
            strftime_loop format tuple (i + 1) (res @ [[format ! i]])"
        and "strftime_loop format tuple i [] = strftime_loop format tuple (i + 1) [[format ! i]]"
        using True by (auto simp: strftime_loop.simps [of format tuple i])
      then show ?thesis using step [of "i + 1" res "[format ! i]"] by (simp add: nil)
    next
      case pct: True
      show ?thesis
      proof (cases "map_of strtime_handlers (format ! (i + 1))")
        case None
        then have "strftime_loop format tuple i res =
              strftime_loop format tuple (i + 2) (res @ [[CHR 0x25, format ! (i + 1)]])"
          and "strftime_loop format tuple i [] =
              strftime_loop format tuple (i + 2) [[CHR 0x25, format ! (i + 1)]]"
          using True pct by (auto simp: strftime_loop.simps [of format tuple i])
        then show ?thesis
          using step [of "i + 2" res "[CHR 0x25, format ! (i + 1)]"] by (simp add: nil)
      next
        case (Some fn)
        show ?thesis
        proof (cases "fn tuple")
          case (Inl e)
          then show ?thesis
            using True pct Some by (simp add: strftime_loop.simps [of format tuple i])
        next
          case (Inr p)
          then have "strftime_loop format tuple i res =
                strftime_loop format tuple (i + 2) (res @ [p])"
            and "strftime_loop format tuple i [] = strftime_loop format tuple (i + 2) [p]"
            using True pct Some by (auto simp: strftime_loop.simps [of format tuple i])
          then show ?thesis using step [of "i + 2" res p] by (simp add: nil)
        qed
      qed
    qed
  qed
qed

lemma strftime_empty: "strftime [] tuple = Inr []"
  by (simp add: strftime_def strftime_loop.simps)

lemma strftime_literal:
  assumes "c \<noteq> CHR 0x25"
  shows "strftime (c # rest) tuple = and_then (strftime rest tuple) (\<lambda>r. Inr (c # r))"
proof -
  have "strftime_loop (c # rest) tuple 0 [] = strftime_loop (c # rest) tuple (Suc 0) [[c]]"
    using assms by (simp add: strftime_loop.simps [of "c # rest" tuple 0])
  also have "\<dots> = strftime_loop rest tuple 0 [[c]]" by (rule strftime_loop_shift)
  also have "\<dots> = and_then (strftime_loop rest tuple 0 []) (\<lambda>r. Inr ([[c]] @ r))"
    by (rule strftime_loop_acc)
  finally show ?thesis by (simp add: strftime_def and_then_assoc)
qed

lemma strftime_lone_percent: "strftime [CHR 0x25] tuple = Inr [CHR 0x25]"
  by (simp add: strftime_def strftime_loop.simps [of "[CHR 0x25]" tuple 0]
      strftime_loop.simps [of "[CHR 0x25]" tuple "Suc 0"])

lemma strftime_known_code:
  assumes "map_of strtime_handlers code = Some fn"
  shows "strftime (CHR 0x25 # code # rest) tuple =
     and_then (fn tuple) (\<lambda>s. and_then (strftime rest tuple) (\<lambda>r. Inr (s @ r)))"
proof (cases "fn tuple")
  case (Inl e)
  then show ?thesis
    using assms by (simp add: strftime_def strftime_loop.simps [of "CHR 0x25 # code # rest" tuple 0])
next
  case (Inr p)
  then have "strftime_loop (CHR 0x25 # code # rest) tuple 0 [] =
      strftime_loop (CHR 0x25 # code # rest) tuple (Suc (Suc 0)) [p]"
    using assms by (simp add: strftime_loop.simps [of "CHR 0x25 # code # rest" tuple 0])
  also have "\<dots> = strftime_loop rest tuple 0 [p]" by (simp only: strftime_loop_shift)
  also have "\<dots> = and_then (strftime_loop rest tuple 0 []) (\<lambda>r. Inr ([p] @ r))"
    by (rule strftime_loop_acc)
  finally show ?thesis using Inr by (simp add: strftime_def and_then_assoc)
qed

lemma strftime_unknown_code:
  assumes "map_of strtime_handlers code = None"
  shows "strftime (CHR 0x25 # code # rest) tuple =
     and_then (strftime rest tuple) (\<lambda>r. Inr (CHR 0x25 # code # r))"
proof -
  have "strftime_loop (CHR 0x25 # code # rest) tuple 0 [] =
      strftime_loop (CHR 0x25 # code # rest) tuple (Suc (Suc 0)) [[CHR 0x25, code]]"
    using assms by (simp add: strftime_loop.simps [of "CHR 0x25 # code # rest" tuple 0])
  also have "\<dots> = strftime_loop rest tuple 0 [[CHR 0x25, code]]"
    by (simp only: strftime_loop_shift)
  also have "\<dots> = and_then (strftime_loop rest tuple 0 []) (\<lambda>r. Inr ([[CHR 0x25, code]] @ r))"
    by (rule strftime_loop_acc)
  finally show ?thesis by (simp add: strftime_def and_then_assoc)
qed

lemma strtime_handlers_codes:
  "(map_of strtime_handlers code = None) = (code \<notin> set ''YymdHMSaAbBwj%'')"
  by (simp add: strtime_handlers_def)

section \<open>The claims\<close>

text \<open>
  C1. The claim: a \<open>struct_time\<close> built from a 9-tuple is a sequence of its nine fields
  (length 9, item \<open>i\<close> is field \<open>i\<close>) and is compared like the tuple it was built from.
  The code does not do this: the constructor leaves the tuple payload empty, so for the
  tuple of 1998-06-06 16:26:11 the length is 0, item 0 raises \<open>IndexError\<close>, and the
  instance is equal to, and not smaller than, the instance of 1999-01-01, although the
  first tuple is smaller than the second.
\<close>

theorem struct_time_payload_is_empty:
  "\<exists>t u. struct_time_new [1998, 6, 6, 16, 26, 11, 5, 157, 0] = Inr t
     \<and> struct_time_new [1999, 1, 1, 0, 0, 0, 4, 1, 0] = Inr u
     \<and> struct_time_len t = 0
     \<and> struct_time_getitem t 0 = Inl IndexError
     \<and> struct_time_eq t u
     \<and> \<not> struct_time_lt t u
     \<and> tuple_lt [1998, 6, 6, 16, 26, 11, 5, 157, 0] [1999, 1, 1, 0, 0, 0, 4, 1, 0]"
  by (simp add: struct_time_new_def struct_time_len_def struct_time_getitem_def
      struct_time_eq_def struct_time_lt_def py_index_def)

text \<open>
  C3. The claim: for every integer \<open>s\<close>, also a negative one, \<open>localtime(s)\<close> returns
  without raising and its fields are in the documented ranges (day 1 to 31, day of the
  year 1 to 366). The call does return for \<open>s = -1\<close>, but with day 0 and day of the year
  0 in January 1970: the year loop only walks forward from 1970.
\<close>

theorem localtime_before_epoch:
  "localtime st (Some (- 1)) =
     Inr \<lparr>items = [], tm_year = 1970, tm_mon = 1, tm_mday = 0, tm_hour = 23, tm_min = 59,
          tm_sec = 59, tm_wday = 2, tm_yday = 0, tm_isdst = 0\<rparr>"
  by (simp add: localtime_def localtime_result_def calc_weekday_def calc_yday_def and_then_def
      py_index_def py_prefix_def leap_patched_def is_leap_def month_days_def struct_time_new_def)

text \<open>
  C6. For every explicit argument \<open>s\<close>, \<open>gmtime(s)\<close> returns what \<open>localtime(s)\<close>
  returns: \<open>gmtime\<close> converts nothing and adds no offset of its own.
\<close>

theorem gmtime_is_localtime: "gmtime st s = localtime st (Some s)"
  by (simp add: gmtime_def)

text \<open>
  C10. For every explicit argument \<open>s\<close>, \<open>localtime(s)\<close> returns a broken-down time
  whose attribute \<open>tm_isdst\<close> is 0.
\<close>

theorem localtime_isdst_zero: "\<exists>tm. localtime st (Some s) = Inr tm \<and> tm_isdst tm = 0"
proof (cases "0 \<le> s")
  case True
  from localtime_nonneg [OF True, of st] show ?thesis by force
next
  case False
  then have "s < 0" by simp
  from localtime_negative [OF this, of st] show ?thesis by force
qed

text \<open>
  C2. For every integer \<open>s \<ge> 0\<close> and every timezone state, \<open>mktime(localtime(s))\<close>
  is \<open>s\<close> plus the standard bias in seconds (the bias is in minutes; the daylight bias
  is not added, because \<open>localtime\<close> reports the DST flag 0), so it differs from \<open>s\<close>
  whenever that bias is not zero.
\<close>

theorem mktime_localtime_offset:
  assumes "0 \<le> s"
  shows "\<exists>tm. localtime st (Some s) = Inr tm
     \<and> mktime tzi tm = s + sint (Bias tzi) * 60
     \<and> (sint (Bias tzi) \<noteq> 0 \<longrightarrow> mktime tzi tm \<noteq> s)"
proof -
  obtain y m d where lt: "localtime st (Some s) =
       Inr \<lparr>items = [], tm_year = y, tm_mon = m, tm_mday = d,
            tm_hour = s div 60 div 60 mod 24, tm_min = s div 60 mod 60, tm_sec = s mod 60,
            tm_wday = (s div 86400 + 3) mod 7, tm_yday = calc_yday y m d, tm_isdst = 0\<rparr>"
    and days: "days_to_year y + sum_list (py_prefix (leap_patched y) (m - 1)) + (d - 1)
       = s div 86400"
    using localtime_nonneg [OF assms, of st] by blast
  define tm where "tm = \<lparr>items = [], tm_year = y, tm_mon = m, tm_mday = d,
            tm_hour = s div 60 div 60 mod 24, tm_min = s div 60 mod 60, tm_sec = s mod 60,
            tm_wday = (s div 86400 + 3) mod 7, tm_yday = calc_yday y m d, tm_isdst = 0\<rparr>"
  have "mktime tzi tm =
      (days_to_year y + sum_list (py_prefix (leap_patched y) (m - 1)) + (d - 1)) * 86400
      + (s div 60 div 60 mod 24) * 3600 + (s div 60 mod 60) * 60 + s mod 60
      + sint (Bias tzi) * 60"
    by (simp add: mktime_def tm_def days_to_year_def get_local_utc_offset_seconds_def Let_def)
  also have "\<dots> = s + sint (Bias tzi) * 60"
    using seconds_recompose [of s] by (simp add: days days_of_seconds)
  finally have mk: "mktime tzi tm = s + sint (Bias tzi) * 60" .
  then have "sint (Bias tzi) \<noteq> 0 \<longrightarrow> mktime tzi tm \<noteq> s" by simp
  with lt mk show ?thesis unfolding tm_def by blast
qed

theorem mktime_localtime_offset_witness:
  "(0::int) \<le> 1709164800
   \<and> (\<exists>tm. localtime \<lparr>wYear = 2024, wMonth = 2, wDayOfWeek = 4, wDay = 29, wHour = 0,
                       wMinute = 0, wSecond = 0, wMilliseconds = 0\<rparr> (Some 1709164800) = Inr tm
        \<and> mktime \<lparr>Bias = - 480, StandardBias = 0, DaylightBias = - 60\<rparr> tm = 1709164800 - 28800
        \<and> mktime \<lparr>Bias = - 480, StandardBias = 0, DaylightBias = - 60\<rparr> tm \<noteq> 1709164800)"
  using mktime_localtime_offset [of 1709164800
      "\<lparr>wYear = 2024, wMonth = 2, wDayOfWeek = 4, wDay = 29, wHour = 0,
        wMinute = 0, wSecond = 0, wMilliseconds = 0\<rparr>"
      "\<lparr>Bias = - 480, StandardBias = 0, DaylightBias = - 60\<rparr>"]
  by simp

text \<open>
  C4. For every integer \<open>s \<ge> 0\<close>, the day of the year that \<open>localtime(s)\<close> reports
  is the day of the month plus the lengths of the months before it (February with 29
  days in a leap year), which is also one more than the days since the start of the
  year; and the weekday it reports is the one the closed formula gives for the reported
  year, month and day, and equals \<open>(s div 86400 + 3) mod 7\<close>, the weekday counted from
  Thursday 1970-01-01 (Monday is 0).
\<close>

theorem weekday_yday_consistent:
  assumes "0 \<le> s"
  shows "\<exists>tm. localtime st (Some s) = Inr tm
     \<and> tm_yday tm = tm_mday tm
          + sum_list (take (nat (tm_mon tm - 1)) (leap_patched (tm_year tm)))
     \<and> tm_yday tm = s div 86400 - days_to_year (tm_year tm) + 1
     \<and> calc_weekday (tm_year tm) (tm_mon tm) (tm_mday tm) = Inr (tm_wday tm)
     \<and> tm_wday tm = (s div 86400 + 3) mod 7"
proof -
  obtain y m d where lt: "localtime st (Some s) =
       Inr \<lparr>items = [], tm_year = y, tm_mon = m, tm_mday = d,
            tm_hour = s div 60 div 60 mod 24, tm_min = s div 60 mod 60, tm_sec = s mod 60,
            tm_wday = (s div 86400 + 3) mod 7, tm_yday = calc_yday y m d, tm_isdst = 0\<rparr>"
    and rng: "1970 \<le> y" "1 \<le> m" "m \<le> 12"
    and days: "days_to_year y + sum_list (py_prefix (leap_patched y) (m - 1)) + (d - 1)
       = s div 86400"
    using localtime_nonneg [OF assms, of st] by blast
  have pre: "py_prefix (leap_patched y) (m - 1) = take (nat (m - 1)) (leap_patched y)"
    using rng(2) by (simp add: py_prefix_def)
  have yd1: "calc_yday y m d = d + sum_list (take (nat (m - 1)) (leap_patched y))"
    by (simp add: calc_yday_def pre)
  have yd2: "calc_yday y m d = s div 86400 - days_to_year y + 1"
    using days by (simp add: calc_yday_def)
  have wd: "calc_weekday y m d = Inr ((s div 86400 + 3) mod 7)"
    using calc_weekday_days [OF rng, of d] days by simp
  show ?thesis using lt yd1 yd2 wd by simp
qed

theorem weekday_yday_consistent_witness:
  "(0::int) \<le> 1709164800
   \<and> (\<exists>tm. localtime \<lparr>wYear = 2024, wMonth = 2, wDayOfWeek = 4, wDay = 29, wHour = 0,
                       wMinute = 0, wSecond = 0, wMilliseconds = 0\<rparr> (Some 1709164800) = Inr tm
        \<and> tm_wday tm = 3)"
  using weekday_yday_consistent [of 1709164800
      "\<lparr>wYear = 2024, wMonth = 2, wDayOfWeek = 4, wDay = 29, wHour = 0,
        wMinute = 0, wSecond = 0, wMilliseconds = 0\<rparr>"]
  by auto

text \<open>
  C5. Whenever \<open>localtime(s)\<close> reports month 2 and day 29, the reported year is a leap
  year (divisible by 4 and not by 100, or divisible by 400); this holds for every integer
  \<open>s\<close>. 2024 is a leap year and 2023 is not. The last second of 2024-02-28 is followed
  by the first second of 2024-02-29, and the last second of 2023-02-28 by the first second
  of 2023-03-01.
\<close>

theorem feb_29_only_in_leap_years:
  "(localtime st (Some s) = Inr tm \<and> tm_mon tm = 2 \<and> tm_mday tm = 29
      \<longrightarrow> is_leap (tm_year tm))
   \<and> is_leap 2024 \<and> \<not> is_leap 2023
   \<and> localtime st (Some 1709164799) =
       Inr \<lparr>items = [], tm_year = 2024, tm_mon = 2, tm_mday = 28, tm_hour = 23, tm_min = 59,
            tm_sec = 59, tm_wday = 2, tm_yday = 59, tm_isdst = 0\<rparr>
   \<and> localtime st (Some 1709164800) =
       Inr \<lparr>items = [], tm_year = 2024, tm_mon = 2, tm_mday = 29, tm_hour = 0, tm_min = 0,
            tm_sec = 0, tm_wday = 3, tm_yday = 60, tm_isdst = 0\<rparr>
   \<and> localtime st (Some 1677628799) =
       Inr \<lparr>items = [], tm_year = 2023, tm_mon = 2, tm_mday = 28, tm_hour = 23, tm_min = 59,
            tm_sec = 59, tm_wday = 1, tm_yday = 59, tm_isdst = 0\<rparr>
   \<and> localtime st (Some 1677628800) =
       Inr \<lparr>items = [], tm_year = 2023, tm_mon = 3, tm_mday = 1, tm_hour = 0, tm_min = 0,
            tm_sec = 0, tm_wday = 2, tm_yday = 60, tm_isdst = 0\<rparr>"
proof (intro conjI)
  show "localtime st (Some s) = Inr tm \<and> tm_mon tm = 2 \<and> tm_mday tm = 29
      \<longrightarrow> is_leap (tm_year tm)"
    using localtime_feb_29 by blast
  show "is_leap 2024" by (simp add: is_leap_def)
  show "\<not> is_leap 2023" by (simp add: is_leap_def)
  note ev = localtime_def localtime_result_def calc_weekday_def calc_yday_def and_then_def
      py_index_def py_prefix_def leap_patched_def is_leap_def month_days_def struct_time_new_def
  show "localtime st (Some 1709164799) =
       Inr \<lparr>items = [], tm_year = 2024, tm_mon = 2, tm_mday = 28, tm_hour = 23, tm_min = 59,
            tm_sec = 59, tm_wday = 2, tm_yday = 59, tm_isdst = 0\<rparr>"
    by (simp add: ev)
  show "localtime st (Some 1709164800) =
       Inr \<lparr>items = [], tm_year = 2024, tm_mon = 2, tm_mday = 29, tm_hour = 0, tm_min = 0,
            tm_sec = 0, tm_wday = 3, tm_yday = 60, tm_isdst = 0\<rparr>"
    by (simp add: ev)
  show "localtime st (Some 1677628799) =
       Inr \<lparr>items = [], tm_year = 2023, tm_mon = 2, tm_mday = 28, tm_hour = 23, tm_min = 59,
            tm_sec = 59, tm_wday = 1, tm_yday = 59, tm_isdst = 0\<rparr>"
    by (simp add: ev)
  show "localtime st (Some 1677628800) =
       Inr \<lparr>items = [], tm_year = 2023, tm_mon = 3, tm_mday = 1, tm_hour = 0, tm_min = 0,
            tm_sec = 0, tm_wday = 2, tm_yday = 60, tm_isdst = 0\<rparr>"
    by (simp add: ev)
qed

theorem feb_29_only_in_leap_years_witness:
  "localtime \<lparr>wYear = 2024, wMonth = 2, wDayOfWeek = 4, wDay = 29, wHour = 0,
              wMinute = 0, wSecond = 0, wMilliseconds = 0\<rparr> (Some 1709164800) =
     Inr \<lparr>items = [], tm_year = 2024, tm_mon = 2, tm_mday = 29, tm_hour = 0, tm_min = 0,
          tm_sec = 0, tm_wday = 3, tm_yday = 60, tm_isdst = 0\<rparr>
   \<and> tm_mon \<lparr>items = [], tm_year = 2024, tm_mon = 2, tm_mday = 29, tm_hour = 0, tm_min = 0,
          tm_sec = 0, tm_wday = 3, tm_yday = 60, tm_isdst = 0\<rparr> = 2
   \<and> tm_mday \<lparr>items = [], tm_year = 2024, tm_mon = 2, tm_mday = 29, tm_hour = 0, tm_min = 0,
          tm_sec = 0, tm_wday = 3, tm_yday = 60, tm_isdst = 0\<rparr> = 29
   \<and> is_leap (tm_year \<lparr>items = [], tm_year = 2024, tm_mon = 2, tm_mday = 29, tm_hour = 0,
          tm_min = 0, tm_sec = 0, tm_wday = 3, tm_yday = 60, tm_isdst = 0\<rparr>)"
  using feb_29_only_in_leap_years [of
      "\<lparr>wYear = 2024, wMonth = 2, wDayOfWeek = 4, wDay = 29, wHour = 0,
        wMinute = 0, wSecond = 0, wMilliseconds = 0\<rparr>"
      1709164800
      "\<lparr>items = [], tm_year = 2024, tm_mon = 2, tm_mday = 29, tm_hour = 0, tm_min = 0,
        tm_sec = 0, tm_wday = 3, tm_yday = 60, tm_isdst = 0\<rparr>"]
  by simp

text \<open>
  C8, as the claim states it: \<open>get_clock_info(name)\<close> raises \<open>ValueError\<close> for every
  name that is not one of the known clock identifiers. This fails for \<open>MONOTONIC\<close>: the
  name is lowered before it is compared.
\<close>

theorem get_clock_info_counterexample:
  "''MONOTONIC'' \<notin> set clock_names
   \<and> get_clock_info 10000000 ''MONOTONIC'' \<noteq> Inl ValueError
   \<and> get_clock_info 10000000 ''MONOTONIC'' =
       Inr \<lparr>resolution = One_over 10000000, adjustable = False,
            implementation = ''QueryPerformanceCounter'', monotonic = True\<rparr>"
  by (simp add: clock_names_def get_clock_info_def lower_def lower_char_def)

text \<open>
  C8, amended: \<open>get_clock_info(name)\<close> raises \<open>ValueError\<close> exactly when the lowered
  name is not one of the known clock identifiers, it never raises \<open>OSError\<close>, and for a
  counter frequency that is not zero \<open>get_clock_info("monotonic")\<close> returns the resolution
  \<open>1 / _frequency\<close>, not adjustable, monotonic, implemented by QueryPerformanceCounter.
\<close>

theorem get_clock_info_lowered:
  "(get_clock_info f name = Inl ValueError) = (lower name \<notin> set clock_names)
   \<and> get_clock_info f name \<noteq> Inl OSError
   \<and> (sint f \<noteq> 0 \<longrightarrow>
        get_clock_info f ''monotonic'' =
          Inr \<lparr>resolution = One_over (sint f), adjustable = False,
               implementation = ''QueryPerformanceCounter'', monotonic = True\<rparr>)"
proof (intro conjI)
  show "(get_clock_info f name = Inl ValueError) = (lower name \<notin> set clock_names)"
    by (auto simp: get_clock_info_def clock_names_def Let_def)
  show "get_clock_info f name \<noteq> Inl OSError"
    by (simp add: get_clock_info_def Let_def)
  show "sint f \<noteq> 0 \<longrightarrow>
        get_clock_info f ''monotonic'' =
          Inr \<lparr>resolution = One_over (sint f), adjustable = False,
               implementation = ''QueryPerformanceCounter'', monotonic = True\<rparr>"
    by (simp add: get_clock_info_def lower_def lower_char_def)
qed

theorem get_clock_info_lowered_witness:
  "lower ''bogus'' \<notin> set clock_names
   \<and> get_clock_info 10000000 ''bogus'' = Inl ValueError
   \<and> sint (10000000 :: 64 word) \<noteq> 0
   \<and> get_clock_info 10000000 ''monotonic'' =
       Inr \<lparr>resolution = One_over 10000000, adjustable = False,
            implementation = ''QueryPerformanceCounter'', monotonic = True\<rparr>"
proof -
  have n: "lower ''bogus'' \<notin> set clock_names"
    by (simp add: lower_def lower_char_def clock_names_def)
  have z: "sint (10000000 :: 64 word) \<noteq> 0" by simp
  show ?thesis
    using get_clock_info_lowered [of 10000000 "''bogus''"] n z by simp
qed

text \<open>
  C7. \<open>strftime\<close> is one pass over the format string from left to right: an empty
  format gives the empty string; a character that is not a percent sign is copied and the
  pass goes on behind it; a percent sign that is the last character is copied; a percent
  sign followed by a code of the handler table is replaced by what the handler renders
  (and the call raises when the handler raises), and the pass goes on behind the code; a
  percent sign followed by any other character is copied together with that character,
  without raising. The codes of the table are Y, y, m, d, H, M, S, a, A, b, B, w, j and the
  percent sign. For a time with year 1998, month 6 and day 6 the format \<open>%Y-%m-%d\<close>
  gives \<open>1998-06-06\<close>, and \<open>%Q\<close> gives \<open>%Q\<close>.
\<close>

theorem strftime_single_pass:
  "strftime [] tuple = Inr []
   \<and> (c \<noteq> CHR 0x25 \<longrightarrow>
        strftime (c # rest) tuple = and_then (strftime rest tuple) (\<lambda>r. Inr (c # r)))
   \<and> strftime [CHR 0x25] tuple = Inr [CHR 0x25]
   \<and> (map_of strtime_handlers code = Some fn \<longrightarrow>
        strftime (CHR 0x25 # code # rest) tuple =
          and_then (fn tuple) (\<lambda>s. and_then (strftime rest tuple) (\<lambda>r. Inr (s @ r))))
   \<and> (map_of strtime_handlers code = None \<longrightarrow>
        strftime (CHR 0x25 # code # rest) tuple =
          and_then (strftime rest tuple) (\<lambda>r. Inr (CHR 0x25 # code # r)))
   \<and> (map_of strtime_handlers code = None) = (code \<notin> set ''YymdHMSaAbBwj%'')
   \<and> (tm_year t = 1998 \<and> tm_mon t = 6 \<and> tm_mday t = 6 \<longrightarrow>
        strftime ''%Y-%m-%d'' (Some t) = Inr ''1998-06-06'')
   \<and> strftime ''%Q'' tuple = Inr ''%Q''"
proof (intro conjI impI)
  show "strftime [] tuple = Inr []" by (rule strftime_empty)
  show "strftime (c # rest) tuple = and_then (strftime rest tuple) (\<lambda>r. Inr (c # r))"
    if "c \<noteq> CHR 0x25" using that by (rule strftime_literal)
  show "strftime [CHR 0x25] tuple = Inr [CHR 0x25]" by (rule strftime_lone_percent)
  show "strftime (CHR 0x25 # code # rest) tuple =
          and_then (fn tuple) (\<lambda>s. and_then (strftime rest tuple) (\<lambda>r. Inr (s @ r)))"
    if "map_of strtime_handlers code = Some fn" using that by (rule strftime_known_code)
  show "strftime (CHR 0x25 # code # rest) tuple =
          and_then (strftime rest tuple) (\<lambda>r. Inr (CHR 0x25 # code # r))"
    if "map_of strtime_handlers code = None" using that by (rule strftime_unknown_code)
  show "(map_of strtime_handlers code = None) = (code \<notin> set ''YymdHMSaAbBwj%'')"
    by (rule strtime_handlers_codes)
  show "strftime ''%Y-%m-%d'' (Some t) = Inr ''1998-06-06''"
    if "tm_year t = 1998 \<and> tm_mon t = 6 \<and> tm_mday t = 6"
    using that
    by (simp add: strftime_def strftime_loop.simps strtime_handlers_def attr_def py_str_def
        zero_pad_def zfill_def nat_digits.simps)
  show "strftime ''%Q'' tuple = Inr ''%Q''"
    by (simp add: strftime_def strftime_loop.simps strtime_handlers_def)
qed

theorem strftime_single_pass_witness:
  "CHR ''-'' \<noteq> CHR 0x25
   \<and> strftime ''-'' None = Inr ''-''
   \<and> map_of strtime_handlers (CHR ''d'') =
        Some (\<lambda>tm. and_then (attr tm_mday tm) (\<lambda>n. Inr (zero_pad n 2)))
   \<and> strftime ''%d''
        (Some \<lparr>items = [], tm_year = 1998, tm_mon = 6, tm_mday = 6, tm_hour = 16, tm_min = 26,
               tm_sec = 11, tm_wday = 5, tm_yday = 157, tm_isdst = 0\<rparr>) = Inr ''06''
   \<and> map_of strtime_handlers (CHR ''Q'') = None
   \<and> strftime ''%Q-'' None = Inr ''%Q-''
   \<and> tm_year \<lparr>items = [], tm_year = 1998, tm_mon = 6, tm_mday = 6, tm_hour = 16, tm_min = 26,
               tm_sec = 11, tm_wday = 5, tm_yday = 157, tm_isdst = 0\<rparr> = 1998
   \<and> strftime ''%Y-%m-%d''
        (Some \<lparr>items = [], tm_year = 1998, tm_mon = 6, tm_mday = 6, tm_hour = 16, tm_min = 26,
               tm_sec = 11, tm_wday = 5, tm_yday = 157, tm_isdst = 0\<rparr>) = Inr ''1998-06-06''"
proof -
  define t where "t = \<lparr>items = [], tm_year = 1998, tm_mon = 6, tm_mday = 6, tm_hour = 16,
      tm_min = 26, tm_sec = 11, tm_wday = 5, tm_yday = 157, tm_isdst = (0::int)\<rparr>"
  have d: "map_of strtime_handlers (CHR ''d'') =
        Some (\<lambda>tm. and_then (attr tm_mday tm) (\<lambda>n. Inr (zero_pad n 2)))"
    by (simp add: strtime_handlers_def)
  have q: "map_of strtime_handlers (CHR ''Q'') = None"
    by (simp add: strtime_handlers_def)
  have pad: "zero_pad 6 2 = ''06''"
    by (simp add: zero_pad_def zfill_def py_str_def nat_digits.simps)
  have lit: "strftime ''-'' None = Inr ''-''"
    using strftime_single_pass [of None "CHR ''-''" "[]"] by simp
  have known: "strftime ''%d'' (Some t) = Inr ''06''"
    using strftime_single_pass [of "Some t" "CHR ''-''" "[]" "CHR ''d''"
        "\<lambda>tm. and_then (attr tm_mday tm) (\<lambda>n. Inr (zero_pad n 2))"] d pad
    by (simp add: attr_def t_def)
  have unknown: "strftime ''%Q-'' None = Inr ''%Q-''"
    using strftime_single_pass [of None "CHR ''-''" "''-''" "CHR ''Q''"] q lit by simp
  have ex: "strftime ''%Y-%m-%d'' (Some t) = Inr ''1998-06-06''"
    using strftime_single_pass [of _ _ _ _ _ t] by (simp add: t_def)
  show ?thesis using d q lit known unknown ex by (simp add: t_def)
qed

end
